theory Spec2Isabelle
  imports Main
begin

section \<open>Package config: data model\<close>

text \<open>
  The Go package \<open>config\<close> (src/config.go) scans the directories of a search path once,
  keeps every file it could read in a package-level map keyed by base name, and offers
  typed accessors on that map. The embedding below follows the source function by
  function. Go values that the code can observe are kept apart: a \<open>[]byte\<close> is either
  \<open>nil\<close> or a slice holding bytes, a \<open>map\<close> variable is either \<open>nil\<close> or a map, an
  \<open>error\<close> result is \<open>None\<close> (Go's \<open>nil\<close>) or an error value.
\<close>

subsection \<open>Byte slices and the store\<close>

datatype bytes = nil_bytes | Slice string

text \<open>Go's conversion \<open>string(b)\<close>: a nil slice converts to the empty string.\<close>

fun string_of_bytes :: "bytes \<Rightarrow> string" where
  "string_of_bytes nil_bytes = []"
| "string_of_bytes (Slice d) = d"

type_synonym store = "string \<rightharpoonup> bytes"

text \<open>
  The single-valued index expression \<open>m[k]\<close> on a \<open>map[string][]byte\<close>: the zero value
  \<open>nil\<close> when the key is absent, the stored slice otherwise.
\<close>

definition map_index :: "store \<Rightarrow> string \<Rightarrow> bytes" where
  "map_index m k = (case m k of None \<Rightarrow> nil_bytes | Some v \<Rightarrow> v)"

text \<open>
  The two-valued form \<open>v, ok := m[k]\<close> on a map variable that may still be \<open>nil\<close>
  (reading a nil map behaves like reading an empty one).
\<close>

definition map_lookup :: "store option \<Rightarrow> string \<Rightarrow> bytes option" where
  "map_lookup m k = (case m of None \<Rightarrow> None | Some s \<Rightarrow> s k)"

subsection \<open>Errors\<close>

text \<open>
  The error values the package handles: \<open>os.ErrNotExist\<close>; errors made by the operating
  system or a library (opaque here: a message and what they wrap, if anything); the
  value \<open>fmt.Errorf\<close> builds without \<open>%w\<close> (a plain message); and the one it builds with
  \<open>%w\<close>, which holds the formatted message and the wrapped error.
\<close>

datatype error =
    ErrNotExist
  | Foreign string "error option"
  | errorString string
  | wrapError string error

fun Error :: "error \<Rightarrow> string" where
  "Error ErrNotExist = ''file does not exist''"
| "Error (Foreign m w) = m"
| "Error (errorString m) = m"
| "Error (wrapError m e) = m"

fun Unwrap :: "error \<Rightarrow> error option" where
  "Unwrap ErrNotExist = None"
| "Unwrap (Foreign m w) = w"
| "Unwrap (errorString m) = None"
| "Unwrap (wrapError m e) = Some e"

text \<open>
  \<open>wraps e t\<close>: following \<open>Unwrap\<close> from \<open>e\<close> reaches \<open>t\<close> (what \<open>errors.Is\<close> tests,
  with equality of values).
\<close>

fun wraps :: "error \<Rightarrow> error \<Rightarrow> bool" where
  "wraps ErrNotExist t = (t = ErrNotExist)"
| "wraps (Foreign m None) t = (t = Foreign m None)"
| "wraps (Foreign m (Some w)) t = (t = Foreign m (Some w) \<or> wraps w t)"
| "wraps (errorString m) t = (t = errorString m)"
| "wraps (wrapError m e) t = (t = wrapError m e \<or> wraps e t)"

subsection \<open>Values of net/url and the decoding target of Userinfo\<close>

record url_Userinfo =
  username :: string
  password :: string
  passwordSet :: bool

definition User :: "string \<Rightarrow> url_Userinfo" where
  "User u = \<lparr>username = u, password = [], passwordSet = False\<rparr>"

definition UserPassword :: "string \<Rightarrow> string \<Rightarrow> url_Userinfo" where
  "UserPassword u p = \<lparr>username = u, password = p, passwordSet = True\<rparr>"

record URL =
  URL_Scheme :: string
  URL_Opaque :: string
  URL_User :: "url_Userinfo option"
  URL_Host :: string
  URL_Path :: string
  URL_RawPath :: string
  URL_ForceQuery :: bool
  URL_RawQuery :: string
  URL_Fragment :: string

text \<open>The struct \<open>userinfo\<close> of config.go, lines 116-119.\<close>

record userinfo =
  Username :: string
  Password :: string

subsection \<open>The environment of the package\<close>

record file_info =
  Name :: string
  IsDir :: bool

text \<open>
  Everything the package calls but does not implement: the process environment, the
  file system, and the functions of Go's standard library and of yaml.v2. They are
  parameters of the model, one field per function the source calls:
  \<^item> \<open>LookupEnv\<close>: \<open>os.LookupEnv\<close>, \<open>None\<close> when the variable is not set;
  \<^item> \<open>SplitList\<close>, \<open>Join\<close>, \<open>Base\<close>: the functions of \<open>path/filepath\<close>;
  \<^item> \<open>ReadDir\<close>, \<open>ReadFile\<close>: the functions of \<open>io/ioutil\<close>; a successful \<open>ReadFile\<close>
    returns a non-nil slice, also for an empty file, so it is given by its bytes;
  \<^item> \<open>Quote\<close>: what the verb \<open>%q\<close> of \<open>fmt\<close> prints for a string;
  \<^item> \<open>json_Unmarshal_userinfo\<close>: \<open>json.Unmarshal\<close> into a zero \<open>userinfo\<close>; the
    struct is only looked at when no error is returned;
  \<^item> \<open>url_Parse\<close>: \<open>url.Parse\<close>;
  \<^item> \<open>json_Unmarshal\<close>, \<open>yaml_Unmarshal\<close>: decoding into the caller's target \<open>v\<close>,
    giving the target as the decoder leaves it and the error;
  \<^item> \<open>type_name\<close>: what the verb \<open>%T\<close> prints for the caller's target.
\<close>

record 'v go_env =
  LookupEnv :: "string \<Rightarrow> string option"
  SplitList :: "string \<Rightarrow> string list"
  Join :: "string \<Rightarrow> string \<Rightarrow> string"
  Base :: "string \<Rightarrow> string"
  ReadDir :: "string \<Rightarrow> error + file_info list"
  ReadFile :: "string \<Rightarrow> error + string"
  Quote :: "string \<Rightarrow> string"
  json_Unmarshal_userinfo :: "bytes \<Rightarrow> error + userinfo"
  url_Parse :: "string \<Rightarrow> error + URL"
  json_Unmarshal :: "bytes \<Rightarrow> 'v \<Rightarrow> 'v \<times> error option"
  yaml_Unmarshal :: "bytes \<Rightarrow> 'v \<Rightarrow> 'v \<times> error option"
  type_name :: "'v \<Rightarrow> string"

subsection \<open>Package-level state\<close>

text \<open>
  The package variables of config.go, lines 22-42: \<open>DefaultPath\<close>, the \<open>sync.Once\<close>
  (whether its function has run), the published map (\<open>None\<close> is the nil map) and the
  recorded error. \<open>logged\<close> holds the messages handed to \<open>log.Printf\<close>, oldest first.
\<close>

record pkg_state =
  DefaultPath :: string
  pkgOnce :: bool
  pkgVal :: "store option"
  pkgErr :: "error option"
  logged :: "string list"

definition pkg_init :: "string \<Rightarrow> pkg_state" where
  "pkg_init dp = \<lparr>DefaultPath = dp, pkgOnce = False, pkgVal = None, pkgErr = None, logged = []\<rparr>"

section \<open>Package config: operations\<close>

definition EnvVar :: string where
  "EnvVar = ''CONFIG_PATH''"

text \<open>config.go, lines 30-36.\<close>

definition Path :: "'v go_env \<Rightarrow> pkg_state \<Rightarrow> string" where
  "Path env st = (case LookupEnv env EnvVar of None \<Rightarrow> DefaultPath st | Some e \<Rightarrow> e)"

text \<open>\<open>strings.Join\<close>.\<close>

fun strings_Join :: "string list \<Rightarrow> string \<Rightarrow> string" where
  "strings_Join [] sep = []"
| "strings_Join [x] sep = x"
| "strings_Join (x # y # zs) sep = x @ sep @ strings_Join (y # zs) sep"

text \<open>
  The loops of \<open>Load\<close> work on the local map \<open>result\<close> and the local list \<open>files\<close>.
  An early \<open>return\<close> out of the loops is \<open>Inl\<close> of the error that is stored in \<open>pkgErr\<close>.
\<close>

type_synonym acc = "store \<times> string list"

definition dup_error :: "'v go_env \<Rightarrow> string \<Rightarrow> error" where
  "dup_error env b = errorString (''config: multiple config entries with name: '' @ Quote env b)"

definition dir_error :: "'v go_env \<Rightarrow> string \<Rightarrow> error \<Rightarrow> error" where
  "dir_error env p err =
     wrapError (''config: error reading directory '' @ Quote env p @ '': '' @ Error err) err"

text \<open>The body of the inner loop, config.go lines 61-78, for the entry \<open>fi\<close> of directory \<open>p\<close>.\<close>

definition load_file :: "'v go_env \<Rightarrow> string \<Rightarrow> file_info \<Rightarrow> acc \<Rightarrow> error + acc" where
  "load_file env p fi a =
     (let f = Join env p (Name fi) in
      if IsDir fi then Inr a
      else
        let b = Base env f in
        if map_index (fst a) b \<noteq> nil_bytes then Inl (dup_error env b)
        else
          (case ReadFile env f of
             Inl err \<Rightarrow> Inr a
           | Inr d \<Rightarrow> Inr ((fst a)(b \<mapsto> Slice d), snd a @ [f])))"

text \<open>The inner loop, config.go line 60.\<close>

fun load_files :: "'v go_env \<Rightarrow> string \<Rightarrow> file_info list \<Rightarrow> acc \<Rightarrow> error + acc" where
  "load_files env p [] a = Inr a"
| "load_files env p (fi # fis) a =
     (case load_file env p fi a of
        Inl e \<Rightarrow> Inl e
      | Inr a' \<Rightarrow> load_files env p fis a')"

text \<open>The outer loop, config.go lines 54-80.\<close>

fun load_dirs :: "'v go_env \<Rightarrow> string list \<Rightarrow> acc \<Rightarrow> error + acc" where
  "load_dirs env [] a = Inr a"
| "load_dirs env (p # ps) a =
     (case ReadDir env p of
        Inl err \<Rightarrow> Inl (dir_error env p err)
      | Inr fis \<Rightarrow>
          (case load_files env p fis a of
             Inl e \<Rightarrow> Inl e
           | Inr a' \<Rightarrow> load_dirs env ps a'))"

text \<open>
  The function handed to \<open>pkgOnce.Do\<close>, config.go lines 47-84. On an early return
  \<open>pkgVal\<close> is not assigned and the second message is not logged.
\<close>

definition load_once :: "'v go_env \<Rightarrow> pkg_state \<Rightarrow> pkg_state" where
  "load_once env st =
     (let p = Path env st;
          st1 = st\<lparr>logged := logged st @ [''config: '' @ EnvVar @ ''='' @ p]\<rparr>;
          ps = SplitList env p
      in case load_dirs env ps (Map.empty, []) of
           Inl e \<Rightarrow> st1\<lparr>pkgErr := Some e\<rparr>
         | Inr (result, files) \<Rightarrow>
             st1\<lparr>pkgVal := Some result,
                 logged := logged st1 @ [''config: files loaded: '' @ strings_Join files '', '']\<rparr>)"

definition load_error :: "error \<Rightarrow> error" where
  "load_error e = wrapError (''config: encountered while loading config: '' @ Error e) e"

text \<open>
  \<open>Load\<close>, config.go lines 46-91. \<open>sync.Once.Do\<close> runs its function when it has not run
  before and marks the \<open>Once\<close> as done when the function returns.
\<close>

definition Load :: "'v go_env \<Rightarrow> pkg_state \<Rightarrow> pkg_state \<times> error option" where
  "Load env st =
     (let st' = (if pkgOnce st then st else (load_once env st)\<lparr>pkgOnce := True\<rparr>)
      in (st', case pkgErr st' of None \<Rightarrow> None | Some e \<Rightarrow> Some (load_error e)))"

definition get_error :: "'v go_env \<Rightarrow> string \<Rightarrow> error \<Rightarrow> error" where
  "get_error env n err =
     wrapError (''config: failed to get value '' @ Quote env n
                @ '' because there was a load error: '' @ Error err) err"

text \<open>\<open>Bytes\<close>, config.go lines 94-105.\<close>

definition Bytes :: "'v go_env \<Rightarrow> pkg_state \<Rightarrow> string \<Rightarrow> pkg_state \<times> bytes \<times> error option" where
  "Bytes env st n =
     (case Load env st of
        (st', Some err) \<Rightarrow> (st', nil_bytes, Some (get_error env n err))
      | (st', None) \<Rightarrow>
          (case map_lookup (pkgVal st') n of
             Some v \<Rightarrow> (st', v, None)
           | None \<Rightarrow> (st', nil_bytes, Some ErrNotExist)))"

text \<open>\<open>String\<close>, config.go lines 108-114.\<close>

definition String :: "'v go_env \<Rightarrow> pkg_state \<Rightarrow> string \<Rightarrow> pkg_state \<times> string \<times> error option" where
  "String env st n =
     (case Bytes env st n of
        (st', b, Some err) \<Rightarrow> (st', [], Some err)
      | (st', b, None) \<Rightarrow> (st', string_of_bytes b, None))"

definition unmarshal_error :: "string \<Rightarrow> string \<Rightarrow> error \<Rightarrow> error" where
  "unmarshal_error n ty err =
     wrapError (''config: failed to unmarshal '' @ n @ '' into '' @ ty @ '': '' @ Error err) err"

text \<open>\<open>Userinfo\<close>, config.go lines 127-144; the pointer result is \<open>None\<close> for \<open>nil\<close>.\<close>

definition Userinfo ::
  "'v go_env \<Rightarrow> pkg_state \<Rightarrow> string \<Rightarrow> pkg_state \<times> url_Userinfo option \<times> error option" where
  "Userinfo env st n =
     (case Bytes env st n of
        (st', b, Some err) \<Rightarrow> (st', None, Some err)
      | (st', b, None) \<Rightarrow>
          (case json_Unmarshal_userinfo env b of
             Inl err \<Rightarrow> (st', None, Some (unmarshal_error n ''*url.Userinfo'' err))
           | Inr ui \<Rightarrow>
               if Password ui = [] then (st', Some (User (Username ui)), None)
               else (st', Some (UserPassword (Username ui) (Password ui)), None)))"

text \<open>\<open>Url\<close>, config.go lines 147-159.\<close>

definition Url :: "'v go_env \<Rightarrow> pkg_state \<Rightarrow> string \<Rightarrow> pkg_state \<times> URL option \<times> error option" where
  "Url env st n =
     (case String env st n of
        (st', s, Some err) \<Rightarrow> (st', None, Some err)
      | (st', s, None) \<Rightarrow>
          (case url_Parse env s of
             Inl err \<Rightarrow> (st', None, Some (unmarshal_error n ''*url.URL'' err))
           | Inr u \<Rightarrow> (st', Some u, None)))"

text \<open>
  \<open>InterfaceJson\<close> and \<open>InterfaceYaml\<close>, config.go lines 162-189. The target \<open>v\<close> is
  reached through a pointer in Go; the model returns it as the decoder left it.
\<close>

definition InterfaceJson ::
  "'v go_env \<Rightarrow> pkg_state \<Rightarrow> string \<Rightarrow> 'v \<Rightarrow> pkg_state \<times> 'v \<times> error option" where
  "InterfaceJson env st n v =
     (case Bytes env st n of
        (st', b, Some err) \<Rightarrow> (st', v, Some err)
      | (st', b, None) \<Rightarrow>
          (case json_Unmarshal env b v of
             (v', Some err) \<Rightarrow> (st', v', Some (unmarshal_error n (type_name env v) err))
           | (v', None) \<Rightarrow> (st', v', None)))"

definition InterfaceYaml ::
  "'v go_env \<Rightarrow> pkg_state \<Rightarrow> string \<Rightarrow> 'v \<Rightarrow> pkg_state \<times> 'v \<times> error option" where
  "InterfaceYaml env st n v =
     (case Bytes env st n of
        (st', b, Some err) \<Rightarrow> (st', v, Some err)
      | (st', b, None) \<Rightarrow>
          (case yaml_Unmarshal env b v of
             (v', Some err) \<Rightarrow> (st', v', Some (unmarshal_error n (type_name env v) err))
           | (v', None) \<Rightarrow> (st', v', None)))"

section \<open>Concrete environments\<close>

text \<open>
  The theorems below hold for every environment. To run the model on concrete inputs,
  the following gives an environment over a small in-memory file system of a POSIX
  machine. Its library functions follow the documentation of Go's standard library on
  the inputs the examples use: clean directory paths, plain ASCII names, and the file
  contents of the package's tests.
\<close>

datatype node = File string | Unreadable | Subdir

type_synonym fs = "(string \<times> (string \<times> node) list) list"

text \<open>\<open>strings.Split\<close> at one separator byte, and \<open>filepath.SplitList\<close> on POSIX.\<close>

fun strings_Split :: "char \<Rightarrow> string \<Rightarrow> string list" where
  "strings_Split c [] = [[]]"
| "strings_Split c (x # xs) =
     (if x = c then [] # strings_Split c xs
      else (case strings_Split c xs of [] \<Rightarrow> [[x]] | w # ws \<Rightarrow> (x # w) # ws))"

definition SplitList_unix :: "string \<Rightarrow> string list" where
  "SplitList_unix p = (if p = [] then [] else strings_Split (CHR '':'') p)"

text \<open>
  \<open>filepath.Clean\<close> on POSIX by its documented rules: runs of separators collapse,
  \<open>.\<close> elements go, an inner \<open>..\<close> goes with the element before it, a \<open>..\<close> at the
  root goes, and the empty result is \<open>.\<close>.
\<close>

fun clean_elems :: "bool \<Rightarrow> string list \<Rightarrow> string list \<Rightarrow> string list" where
  "clean_elems rooted [] out = rev out"
| "clean_elems rooted (e # es) out =
     (if e = [] \<or> e = ''.'' then clean_elems rooted es out
      else if e = ''..'' then
        (case out of
           [] \<Rightarrow> if rooted then clean_elems rooted es out else clean_elems rooted es [e]
         | t # ts \<Rightarrow>
             if t = ''..'' then clean_elems rooted es (e # out) else clean_elems rooted es ts)
      else clean_elems rooted es (e # out))"

definition Clean_unix :: "string \<Rightarrow> string" where
  "Clean_unix p =
     (let rooted = (p \<noteq> [] \<and> hd p = CHR ''/'');
          r = (if rooted then ''/'' else []) @
              strings_Join (clean_elems rooted (strings_Split (CHR ''/'') p) []) ''/''
      in if r = [] then ''.'' else r)"

definition Join_unix :: "string \<Rightarrow> string \<Rightarrow> string" where
  "Join_unix p n =
     (if p \<noteq> [] then Clean_unix (p @ ''/'' @ n)
      else if n \<noteq> [] then Clean_unix n
      else [])"

text \<open>\<open>filepath.Base\<close> on POSIX.\<close>

definition Base_unix :: "string \<Rightarrow> string" where
  "Base_unix p =
     (if p = [] then ''.''
      else
        let q = rev (dropWhile (\<lambda>c. c = CHR ''/'') (rev p));
            r = rev (takeWhile (\<lambda>c. c \<noteq> CHR ''/'') (rev q))
        in if r = [] then ''/'' else r)"

text \<open>The verb \<open>%q\<close> on a string of printable ASCII characters.\<close>

definition Quote_ascii :: "string \<Rightarrow> string" where
  "Quote_ascii s =
     [CHR 0x22] @
     concat (map (\<lambda>c. if c = CHR 0x22 \<or> c = CHR 0x5C then [CHR 0x5C, c] else [c]) s) @
     [CHR 0x22]"

definition fs_ReadDir :: "fs \<Rightarrow> string \<Rightarrow> error + file_info list" where
  "fs_ReadDir t p =
     (case map_of t p of
        None \<Rightarrow> Inl (Foreign (''open '' @ p @ '': no such file or directory'') None)
      | Some es \<Rightarrow> Inr (map (\<lambda>(n, k). \<lparr>Name = n, IsDir = (k = Subdir)\<rparr>) es))"

definition fs_ReadFile :: "fs \<Rightarrow> string \<Rightarrow> error + string" where
  "fs_ReadFile t f =
     (case concat (map (\<lambda>(p, es). map snd (filter (\<lambda>(n, k). Join_unix p n = f) es)) t) of
        [] \<Rightarrow> Inl (Foreign (''open '' @ f @ '': no such file or directory'') None)
      | File d # _ \<Rightarrow> Inr d
      | Unreadable # _ \<Rightarrow> Inl (Foreign (''open '' @ f @ '': permission denied'') None)
      | Subdir # _ \<Rightarrow> Inl (Foreign (''read '' @ f @ '': is a directory'') None))"

text \<open>The text \<open>Hello, World!\<close>, a space and the three UTF-8 bytes of U+270C.\<close>

definition hello_world :: string where
  "hello_world = ''Hello, World! '' @ [CHR 0xE2, CHR 0x9C, CHR 0x8C]"

text \<open>
  \<open>json.Unmarshal\<close> into a \<open>userinfo\<close> on the contents the examples use. The first
  four are the files of the package's tests with the outcomes \<open>TestUserinfo\<close> expects
  (a JSON number does not fit the struct, free text is not JSON). The last two are
  objects without a \<open>username\<close> member: \<open>encoding/json\<close> sets the fields it finds a
  member for and leaves the others at their zero value.
\<close>

definition json_userinfo_examples :: "(string \<times> (error + userinfo)) list" where
  \<open>json_userinfo_examples =
     [(''{"username": "user"}'', Inr \<lparr>Username = ''user'', Password = []\<rparr>),
      (''{"username": "user", "password":  "pass"}'',
         Inr \<lparr>Username = ''user'', Password = ''pass''\<rparr>),
      (''1234567890'',
         Inl (Foreign ''json: cannot unmarshal number into Go value of type config.userinfo''
                None)),
      (hello_world,
         Inl (Foreign ''invalid character 'H' looking for beginning of value'' None)),
      (''{}'', Inr \<lparr>Username = [], Password = []\<rparr>),
      (''{"password": "pass"}'', Inr \<lparr>Username = [], Password = ''pass''\<rparr>)]\<close>

definition example_Unmarshal_userinfo :: "bytes \<Rightarrow> error + userinfo" where
  "example_Unmarshal_userinfo b =
     (case map_of json_userinfo_examples (string_of_bytes b) of
        Some r \<Rightarrow> r
      | None \<Rightarrow> Inl (Foreign ''json: content outside the examples'' None))"

text \<open>
  \<open>url.Parse\<close> on the contents the examples use, with the outcomes \<open>TestUrl\<close> expects:
  the digits are a path, and the JSON texts are rejected.
\<close>

definition path_only :: "string \<Rightarrow> URL" where
  "path_only s =
     \<lparr>URL_Scheme = [], URL_Opaque = [], URL_User = None, URL_Host = [], URL_Path = s,
      URL_RawPath = [], URL_ForceQuery = False, URL_RawQuery = [], URL_Fragment = []\<rparr>"

definition url_examples :: "(string \<times> (error + URL)) list" where
  \<open>url_examples =
     [(''1234567890'', Inr (path_only ''1234567890'')),
      (''{"username": "user"}'',
         Inl (Foreign ''parse: first path segment in URL cannot contain colon'' None)),
      (''{"username": "user", "password":  "pass"}'',
         Inl (Foreign ''parse: first path segment in URL cannot contain colon'' None))]\<close>

definition example_url_Parse :: "string \<Rightarrow> error + URL" where
  "example_url_Parse s =
     (case map_of url_examples s of
        Some r \<Rightarrow> r
      | None \<Rightarrow> Inl (Foreign ''parse: content outside the examples'' None))"

text \<open>
  The environment with \<open>CONFIG_PATH\<close> set to \<open>path\<close> (or unset) over the file system
  \<open>t\<close>. The caller's decoding target is a \<open>userinfo\<close>.
\<close>

definition example_env :: "string option \<Rightarrow> fs \<Rightarrow> userinfo go_env" where
  "example_env path t =
     \<lparr>LookupEnv = (\<lambda>k. if k = EnvVar then path else None),
      SplitList = SplitList_unix,
      Join = Join_unix,
      Base = Base_unix,
      ReadDir = fs_ReadDir t,
      ReadFile = fs_ReadFile t,
      Quote = Quote_ascii,
      json_Unmarshal_userinfo = example_Unmarshal_userinfo,
      url_Parse = example_url_Parse,
      json_Unmarshal =
        (\<lambda>b v. case example_Unmarshal_userinfo b of Inl e \<Rightarrow> (v, Some e) | Inr u \<Rightarrow> (u, None)),
      yaml_Unmarshal =
        (\<lambda>b v. case example_Unmarshal_userinfo b of Inl e \<Rightarrow> (v, Some e) | Inr u \<Rightarrow> (u, None)),
      type_name = (\<lambda>v. ''*config.userinfo'')\<rparr>"

text \<open>
  The fixture of the package's tests (\<open>TestMain\<close> and \<open>testInputs\<close>): two directories
  on the search path, two files in each.
\<close>

definition testdata :: fs where
  \<open>testdata =
     [(''testdata/1'', [(''bytes'', File ''1234567890''),
                        (''user.json'', File ''{"username": "user"}'')]),
      (''testdata/2'', [(''string'', File hello_world),
                        (''userpass.json'', File ''{"username": "user", "password":  "pass"}'')])]\<close>

definition test_env :: "userinfo go_env" where
  "test_env = example_env (Some ''testdata/1:testdata/2'') testdata"

text \<open>
  Further file systems for the examples: the same name in two directories; the same
  name twice with the first file unreadable; a search path naming a directory that does
  not exist; a directory with an unreadable file, a subdirectory and a readable file;
  a JSON object without a \<open>username\<close> member; and no search path at all.
\<close>

definition dup_env :: "userinfo go_env" where
  "dup_env = example_env (Some ''d1:d2'')
     [(''d1'', [(''a'', File ''one'')]), (''d2'', [(''a'', File ''two'')])]"

definition shadow_env :: "userinfo go_env" where
  "shadow_env = example_env (Some ''d1:d2'')
     [(''d1'', [(''a'', Unreadable)]), (''d2'', [(''a'', File ''two'')])]"

definition missing_env :: "userinfo go_env" where
  "missing_env = example_env (Some ''missing'') []"

definition locked_env :: "userinfo go_env" where
  "locked_env = example_env (Some ''d'')
     [(''d'', [(''a'', Unreadable), (''b'', File ''bee''), (''sub'', Subdir)])]"


definition unset_env :: "userinfo go_env" where
  "unset_env = example_env None []"

section \<open>The scan as one sequence of entries\<close>

text \<open>
  A run of \<open>Load\<close> is a run of \<open>Load\<close> in each environment of a list, in order: the
  environment may change between two calls. The results are returned in call order.
\<close>

fun Load_seq :: "'v go_env list \<Rightarrow> pkg_state \<Rightarrow> pkg_state \<times> error option list" where
  "Load_seq [] st = (st, [])"
| "Load_seq (env # envs) st =
     (case Load env st of
        (st', r) \<Rightarrow> (case Load_seq envs st' of (st'', rs) \<Rightarrow> (st'', r # rs)))"

text \<open>
  The search path of a fresh process, and the entries the two loops visit, in the order
  they visit them, when every directory can be listed: each entry with its directory.
\<close>

type_synonym entry = "string \<times> file_info"

definition search_path :: "'v go_env \<Rightarrow> string \<Rightarrow> string list" where
  "search_path env dp = SplitList env (Path env (pkg_init dp))"

definition listable :: "'v go_env \<Rightarrow> string \<Rightarrow> bool" where
  "listable env p = (case ReadDir env p of Inl err \<Rightarrow> False | Inr fis \<Rightarrow> True)"

definition entries_of :: "'v go_env \<Rightarrow> string \<Rightarrow> entry list" where
  "entries_of env p = (case ReadDir env p of Inl err \<Rightarrow> [] | Inr fis \<Rightarrow> map (Pair p) fis)"

definition scan_entries :: "'v go_env \<Rightarrow> string list \<Rightarrow> entry list" where
  "scan_entries env ps = concat (map (entries_of env) ps)"

definition is_file :: "entry \<Rightarrow> bool" where
  "is_file e = (\<not> IsDir (snd e))"

definition entry_path :: "'v go_env \<Rightarrow> entry \<Rightarrow> string" where
  "entry_path env e = Join env (fst e) (Name (snd e))"

definition entry_key :: "'v go_env \<Rightarrow> entry \<Rightarrow> string" where
  "entry_key env e = Base env (entry_path env e)"

definition entry_read :: "'v go_env \<Rightarrow> entry \<Rightarrow> error + string" where
  "entry_read env e = ReadFile env (entry_path env e)"

definition read_ok :: "'v go_env \<Rightarrow> entry \<Rightarrow> bool" where
  "read_ok env e = (case entry_read env e of Inl err \<Rightarrow> False | Inr d \<Rightarrow> True)"

text \<open>The two loops as one loop over the entries.\<close>

fun load_entries :: "'v go_env \<Rightarrow> entry list \<Rightarrow> acc \<Rightarrow> error + acc" where
  "load_entries env [] a = Inr a"
| "load_entries env (e # es) a =
     (case load_file env (fst e) (snd e) a of
        Inl err \<Rightarrow> Inl err
      | Inr a' \<Rightarrow> load_entries env es a')"

text \<open>
  \<open>collides env seen e\<close>: the entry \<open>e\<close> is not a directory and an entry visited before
  it, not a directory either, has the same base name and could be read.
  \<open>no_collision env seen es\<close>: no entry of \<open>es\<close> collides with what was visited before it,
  \<open>seen\<close> being visited before all of \<open>es\<close>.
\<close>

definition collides :: "'v go_env \<Rightarrow> entry list \<Rightarrow> entry \<Rightarrow> bool" where
  "collides env seen e =
     (is_file e \<and> list_ex (\<lambda>x. is_file x \<and> entry_key env x = entry_key env e \<and> read_ok env x) seen)"

fun no_collision :: "'v go_env \<Rightarrow> entry list \<Rightarrow> entry list \<Rightarrow> bool" where
  "no_collision env seen [] = True"
| "no_collision env seen (e # es) = (\<not> collides env seen e \<and> no_collision env (seen @ [e]) es)"

text \<open>
  \<open>holds_read env seen m\<close>: the map \<open>m\<close> holds, under their base names, the contents of
  the entries of \<open>seen\<close> that are not directories and could be read, and nothing else.
\<close>

definition holds_read :: "'v go_env \<Rightarrow> entry list \<Rightarrow> store \<Rightarrow> bool" where
  "holds_read env seen m =
     (\<forall>k v. (m k = Some v) =
        (\<exists>x \<in> set seen. is_file x \<and> entry_key env x = k \<and> (\<exists>d. entry_read env x = Inr d \<and> v = Slice d)))"

section \<open>Properties\<close>

subsection \<open>The loops\<close>

lemma load_entries_append:
  "load_entries env (xs @ ys) a =
     (case load_entries env xs a of Inl e \<Rightarrow> Inl e | Inr a' \<Rightarrow> load_entries env ys a')"
  by (induction xs arbitrary: a) (auto split: sum.splits)

lemma load_files_entries: "load_files env p fis a = load_entries env (map (Pair p) fis) a"
  by (induction fis arbitrary: a) (auto split: sum.splits)

lemma load_dirs_entries:
  "\<forall>p \<in> set ps. listable env p \<Longrightarrow> load_dirs env ps a = load_entries env (scan_entries env ps) a"
proof (induction ps arbitrary: a)
  case Nil
  then show ?case by (simp add: scan_entries_def)
next
  case (Cons p ps)
  from Cons.prems obtain fis where fis: "ReadDir env p = Inr fis"
    by (auto simp: listable_def split: sum.splits)
  have rest: "\<And>a'. load_dirs env ps a' = load_entries env (scan_entries env ps) a'"
    using Cons by simp
  show ?case
    using fis rest
    by (simp add: scan_entries_def entries_of_def load_entries_append load_files_entries
        split: sum.splits)
qed

lemma load_dirs_listable:
  "load_dirs env ps a = Inr r \<Longrightarrow> p \<in> set ps \<Longrightarrow> listable env p"
  by (induction ps arbitrary: a) (auto simp: listable_def split: sum.splits)

lemma load_file_error:
  "load_file env p fi a = Inl e \<Longrightarrow> e = dup_error env (Base env (Join env p (Name fi)))"
  by (auto simp: load_file_def Let_def split: if_splits sum.splits)

lemma load_files_error:
  "load_files env p fis a = Inl e \<Longrightarrow> \<exists>b. e = dup_error env b"
  by (induction fis arbitrary: a) (auto split: sum.splits dest: load_file_error)

lemma load_dirs_error:
  "load_dirs env ps a = Inl e \<Longrightarrow>
     (\<exists>p err. p \<in> set ps \<and> ReadDir env p = Inl err \<and> e = dir_error env p err) \<or>
     (\<exists>b. e = dup_error env b)"
proof (induction ps arbitrary: a)
  case Nil
  then show ?case by simp
next
  case (Cons p ps)
  show ?case
  proof (cases "ReadDir env p")
    case (Inl err)
    with Cons.prems show ?thesis by auto
  next
    case (Inr fis)
    show ?thesis
    proof (cases "load_files env p fis a")
      case (Inl e')
      with Inr Cons.prems have "e = e'" by simp
      with Inl show ?thesis using load_files_error by blast
    next
      case (Inr a')
      with \<open>ReadDir env p = Inr fis\<close> Cons.prems have "load_dirs env ps a' = Inl e" by simp
      from Cons.IH[OF this] show ?thesis by auto
    qed
  qed
qed

lemma read_ok_iff: "read_ok env x = (\<exists>d. entry_read env x = Inr d)"
  by (cases "entry_read env x") (simp_all add: read_ok_def)

lemma holds_read_Some:
  "holds_read env seen m \<Longrightarrow> m k = Some v \<Longrightarrow>
     \<exists>x \<in> set seen. is_file x \<and> entry_key env x = k \<and> (\<exists>d. entry_read env x = Inr d \<and> v = Slice d)"
  unfolding holds_read_def by blast

lemma holds_read_mem:
  "holds_read env seen m \<Longrightarrow> x \<in> set seen \<Longrightarrow> is_file x \<Longrightarrow> entry_read env x = Inr d \<Longrightarrow>
     m (entry_key env x) = Some (Slice d)"
  unfolding holds_read_def by blast

lemma holds_read_index:
  assumes "holds_read env seen m"
  shows "(map_index m k \<noteq> nil_bytes) = (m k \<noteq> None)"
proof (cases "m k")
  case None
  then show ?thesis by (simp add: map_index_def)
next
  case (Some v)
  from holds_read_Some[OF assms Some] have "v \<noteq> nil_bytes" by auto
  with Some show ?thesis by (simp add: map_index_def)
qed

lemma holds_read_dom:
  assumes "holds_read env seen m"
  shows "(m k \<noteq> None) = (\<exists>x \<in> set seen. is_file x \<and> entry_key env x = k \<and> read_ok env x)"
proof
  assume "m k \<noteq> None"
  then obtain v where "m k = Some v" by auto
  from holds_read_Some[OF assms this] show "\<exists>x \<in> set seen. is_file x \<and> entry_key env x = k \<and> read_ok env x"
    by (auto simp: read_ok_iff)
next
  assume "\<exists>x \<in> set seen. is_file x \<and> entry_key env x = k \<and> read_ok env x"
  then obtain x d where "x \<in> set seen" "is_file x" "entry_key env x = k" "entry_read env x = Inr d"
    by (auto simp: read_ok_iff)
  from holds_read_mem[OF assms this(1,2,4)] this(3) show "m k \<noteq> None" by simp
qed

lemma load_file_step:
  assumes "holds_read env seen m"
  shows "if collides env seen e then load_file env (fst e) (snd e) (m, fs) = Inl (dup_error env (entry_key env e))
         else \<exists>m' fs'. load_file env (fst e) (snd e) (m, fs) = Inr (m', fs') \<and> holds_read env (seen @ [e]) m'"
proof (cases "is_file e")
  case False
  then have "load_file env (fst e) (snd e) (m, fs) = Inr (m, fs)"
    by (simp add: load_file_def is_file_def)
  moreover have "holds_read env (seen @ [e]) m"
    using assms False by (auto simp: holds_read_def)
  ultimately show ?thesis using False by (simp add: collides_def)
next
  case True
  let ?k = "entry_key env e"
  have col: "collides env seen e = (map_index m ?k \<noteq> nil_bytes)"
    using True holds_read_index[OF assms] holds_read_dom[OF assms]
    by (simp add: collides_def list_ex_iff)
  show ?thesis
  proof (cases "collides env seen e")
    case c: True
    then show ?thesis using True col
      by (simp add: load_file_def is_file_def entry_key_def entry_path_def Let_def)
  next
    case c: False
    then have nil: "map_index m ?k = nil_bytes" using col by simp
    then have none: "m ?k = None" using holds_read_index[OF assms, of ?k] by auto
    show ?thesis
    proof (cases "entry_read env e")
      case (Inl err)
      then have "load_file env (fst e) (snd e) (m, fs) = Inr (m, fs)"
        using True nil
        by (simp add: load_file_def is_file_def entry_key_def entry_path_def entry_read_def Let_def)
      moreover have "holds_read env (seen @ [e]) m"
        using assms Inl by (auto simp: holds_read_def)
      ultimately show ?thesis using c by simp
    next
      case (Inr d)
      then have "load_file env (fst e) (snd e) (m, fs) = Inr (m(?k \<mapsto> Slice d), fs @ [entry_path env e])"
        using True nil
        by (simp add: load_file_def is_file_def entry_key_def entry_path_def entry_read_def Let_def)
      moreover have "holds_read env (seen @ [e]) (m(?k \<mapsto> Slice d))"
        unfolding holds_read_def
      proof (intro allI)
        fix k v
        show "((m(?k \<mapsto> Slice d)) k = Some v) =
          (\<exists>x\<in>set (seen @ [e]). is_file x \<and> entry_key env x = k \<and> (\<exists>d. entry_read env x = Inr d \<and> v = Slice d))"
        proof (cases "k = ?k")
          case k: True
          have "\<not> (\<exists>x \<in> set seen. is_file x \<and> entry_key env x = ?k \<and> read_ok env x)"
            using holds_read_dom[OF assms, of ?k] none by simp
          then have "\<And>x d'. x \<in> set seen \<Longrightarrow> is_file x \<Longrightarrow> entry_key env x = ?k \<Longrightarrow> entry_read env x \<noteq> Inr d'"
            by (auto simp: read_ok_iff)
          then show ?thesis using k True Inr by auto
        next
          case k: False
          then show ?thesis using assms by (auto simp: holds_read_def)
        qed
      qed
      ultimately show ?thesis using c by auto
    qed
  qed
qed

lemma load_entries_char:
  "holds_read env seen m \<Longrightarrow>
     (if no_collision env seen es
      then \<exists>m' fs'. load_entries env es (m, fs) = Inr (m', fs') \<and> holds_read env (seen @ es) m'
      else \<exists>b. load_entries env es (m, fs) = Inl (dup_error env b))"
proof (induction es arbitrary: seen m fs)
  case Nil
  then show ?case by simp
next
  case (Cons e es)
  show ?case
  proof (cases "collides env seen e")
    case True
    then show ?thesis using load_file_step[OF Cons.prems, of e fs] by auto
  next
    case False
    then obtain m' fs' where st: "load_file env (fst e) (snd e) (m, fs) = Inr (m', fs')"
      and h: "holds_read env (seen @ [e]) m'"
      using load_file_step[OF Cons.prems, of e fs] by auto
    from Cons.IH[OF h, of fs'] show ?thesis using False st by (simp split: if_splits)
  qed
qed

lemma holds_read_empty: "holds_read env [] Map.empty"
  by (simp add: holds_read_def)

subsection \<open>Load and the accessors after the first call\<close>

lemma Load_done: "pkgOnce st \<Longrightarrow> Load env st = (st, map_option load_error (pkgErr st))"
  by (cases "pkgErr st") (simp_all add: Load_def)

lemma Load_pkgOnce: "pkgOnce (fst (Load env st))"
  by (simp add: Load_def Let_def)

lemma Load_snd: "snd (Load env st) = map_option load_error (pkgErr (fst (Load env st)))"
  by (cases "pkgErr (fst (Load env st))") (simp_all add: Load_def Let_def)

lemma Load_again: "Load env' (fst (Load env st)) = Load env st"
  using Load_done[OF Load_pkgOnce, of env' env st] Load_snd[of env st]
  by (simp add: prod_eq_iff)

lemma Load_seq_done:
  "pkgOnce st \<Longrightarrow> Load_seq envs st = (st, replicate (length envs) (map_option load_error (pkgErr st)))"
  by (induction envs) (simp_all add: Load_done)

lemma Load_init_fail:
  assumes "load_dirs env (search_path env dp) (Map.empty, []) = Inl e"
  shows "pkgErr (fst (Load env (pkg_init dp))) = Some e"
    and "pkgVal (fst (Load env (pkg_init dp))) = None"
    and "snd (Load env (pkg_init dp)) = Some (load_error e)"
  using assms
  by (simp_all add: Load_def load_once_def Let_def search_path_def pkg_init_def)

lemma Load_init_ok:
  assumes "load_dirs env (search_path env dp) (Map.empty, []) = Inr (m, fs)"
  shows "pkgErr (fst (Load env (pkg_init dp))) = None"
    and "pkgVal (fst (Load env (pkg_init dp))) = Some m"
    and "snd (Load env (pkg_init dp)) = None"
  using assms
  by (simp_all add: Load_def load_once_def Let_def search_path_def pkg_init_def)

lemma Load_init_logged:
  "\<exists>tl. logged (fst (Load env (pkg_init dp))) = (''config: '' @ EnvVar @ ''='' @ Path env (pkg_init dp)) # tl
     \<and> length tl \<le> 1"
  by (simp add: Load_def load_once_def Let_def pkg_init_def split: sum.splits prod.splits)

lemma Bytes_failed:
  "pkgOnce st \<Longrightarrow> pkgErr st = Some e \<Longrightarrow>
     Bytes env st n = (st, nil_bytes, Some (get_error env n (load_error e)))"
  by (simp add: Bytes_def Load_done)

lemma wraps_refl: "wraps e e"
proof (cases e)
  case (Foreign m w)
  then show ?thesis by (cases w) simp_all
qed simp_all

lemma wraps_get_error: "wraps (get_error env n (load_error e)) e"
  by (simp add: get_error_def load_error_def wraps_refl)

subsection \<open>Collisions\<close>

lemma no_collision_append:
  "no_collision env seen (xs @ ys) = (no_collision env seen xs \<and> no_collision env (seen @ xs) ys)"
  by (induction xs arbitrary: seen) auto

lemma collides_mem:
  "is_file e \<Longrightarrow> x \<in> set seen \<Longrightarrow> is_file x \<Longrightarrow> entry_key env x = entry_key env e \<Longrightarrow>
     read_ok env x \<Longrightarrow> collides env seen e"
  by (auto simp: collides_def list_ex_iff)

lemma collision_found:
  assumes "is_file e1" "is_file e2" "entry_key env e1 = entry_key env e2" "read_ok env e1"
  shows "\<not> no_collision env seen (xs @ e1 # ys @ e2 # zs)"
proof -
  have "collides env (seen @ xs @ e1 # ys) e2"
    using assms by (intro collides_mem[of e2 e1]) auto
  then show ?thesis
    using no_collision_append[of env seen "xs @ e1 # ys" "e2 # zs"] by simp
qed




lemma Load_listable:
  assumes "\<forall>p \<in> set (search_path env dp). listable env p"
  shows "if no_collision env [] (scan_entries env (search_path env dp))
         then \<exists>m. snd (Load env (pkg_init dp)) = None \<and> pkgErr (fst (Load env (pkg_init dp))) = None
                \<and> pkgVal (fst (Load env (pkg_init dp))) = Some m
                \<and> holds_read env (scan_entries env (search_path env dp)) m
         else \<exists>b. snd (Load env (pkg_init dp)) = Some (load_error (dup_error env b))
                \<and> pkgErr (fst (Load env (pkg_init dp))) = Some (dup_error env b)
                \<and> pkgVal (fst (Load env (pkg_init dp))) = None"
proof -
  let ?es = "scan_entries env (search_path env dp)"
  have flat: "load_dirs env (search_path env dp) (Map.empty, []) = load_entries env ?es (Map.empty, [])"
    by (rule load_dirs_entries[OF assms])
  show ?thesis
  proof (cases "no_collision env [] ?es")
    case True
    then obtain m fs where "load_entries env ?es (Map.empty, []) = Inr (m, fs)" and h: "holds_read env ?es m"
      using load_entries_char[OF holds_read_empty, of env ?es "[]"] by auto
    with flat have "load_dirs env (search_path env dp) (Map.empty, []) = Inr (m, fs)" by simp
    from Load_init_ok[OF this] h True show ?thesis by auto
  next
    case False
    then obtain b where "load_entries env ?es (Map.empty, []) = Inl (dup_error env b)"
      using load_entries_char[OF holds_read_empty, of env ?es "[]"] by auto
    with flat have "load_dirs env (search_path env dp) (Map.empty, []) = Inl (dup_error env b)" by simp
    from Load_init_fail[OF this] False show ?thesis by auto
  qed
qed

lemma load_dirs_append:
  "load_dirs env (ps @ qs) a =
     (case load_dirs env ps a of Inl e \<Rightarrow> Inl e | Inr a' \<Rightarrow> load_dirs env qs a')"
  by (induction ps arbitrary: a) (auto split: sum.splits)

subsection \<open>The claims\<close>

lemmas example_simps = example_env_def fs_ReadDir_def fs_ReadFile_def Join_unix_def Clean_unix_def
  Base_unix_def SplitList_unix_def Quote_ascii_def Path_def EnvVar_def pkg_init_def search_path_def

lemmas run_simps = Load_def load_once_def load_file_def Let_def map_index_def map_lookup_def
  Bytes_def String_def Userinfo_def Url_def InterfaceJson_def InterfaceYaml_def

lemmas entry_simps = scan_entries_def entries_of_def listable_def is_file_def entry_path_def
  entry_key_def entry_read_def read_ok_def collides_def

lemma String_failed:
  "pkgOnce st \<Longrightarrow> pkgErr st = Some e \<Longrightarrow>
     String env st n = (st, [], Some (get_error env n (load_error e)))"
  by (simp add: String_def Bytes_failed)

lemma Userinfo_failed:
  "pkgOnce st \<Longrightarrow> pkgErr st = Some e \<Longrightarrow>
     Userinfo env st n = (st, None, Some (get_error env n (load_error e)))"
  by (simp add: Userinfo_def Bytes_failed)

lemma Url_failed:
  "pkgOnce st \<Longrightarrow> pkgErr st = Some e \<Longrightarrow>
     Url env st n = (st, None, Some (get_error env n (load_error e)))"
  by (simp add: Url_def String_failed)

lemma InterfaceJson_failed:
  "pkgOnce st \<Longrightarrow> pkgErr st = Some e \<Longrightarrow>
     InterfaceJson env st n v = (st, v, Some (get_error env n (load_error e)))"
  by (simp add: InterfaceJson_def Bytes_failed)

lemma InterfaceYaml_failed:
  "pkgOnce st \<Longrightarrow> pkgErr st = Some e \<Longrightarrow>
     InterfaceYaml env st n v = (st, v, Some (get_error env n (load_error e)))"
  by (simp add: InterfaceYaml_def Bytes_failed)

lemma scan_entries_mem:
  "(x \<in> set (scan_entries env ps)) =
     (\<exists>p \<in> set ps. \<exists>fis. ReadDir env p = Inr fis \<and> (\<exists>fi \<in> set fis. x = (p, fi)))"
proof -
  have one: "\<And>p. (x \<in> set (entries_of env p)) =
      (\<exists>fis. ReadDir env p = Inr fis \<and> (\<exists>fi \<in> set fis. x = (p, fi)))"
    by (case_tac "ReadDir env p") (auto simp: entries_of_def)
  show ?thesis
    by (simp add: scan_entries_def one)
qed

lemma Load_ok_scan:
  assumes "snd (Load env (pkg_init dp)) = None"
  shows "\<exists>m. pkgVal (fst (Load env (pkg_init dp))) = Some m
            \<and> pkgErr (fst (Load env (pkg_init dp))) = None
            \<and> holds_read env (scan_entries env (search_path env dp)) m"
proof (cases "load_dirs env (search_path env dp) (Map.empty, [])")
  case (Inl e)
  from Load_init_fail(3)[OF this] assms show ?thesis by simp
next
  case (Inr r)
  then have "\<forall>p \<in> set (search_path env dp). listable env p"
    using load_dirs_listable by blast
  from Load_listable[OF this] assms show ?thesis
    by (auto split: if_splits)
qed

text \<open>
  Claim C1, as amended. Two entries of the search path that are not directories have the
  same base name, the one visited first could be read, and every directory up to the
  one of the second entry could be listed. Then the first \<open>Load\<close> records the
  duplicate-name error of some name and fails: \<open>pkgVal\<close> stays nil, and from then on
  \<open>Load\<close> and every accessor (\<open>Bytes\<close>, \<open>String\<close>, \<open>Userinfo\<close>, \<open>Url\<close>, \<open>InterfaceJson\<close>,
  \<open>InterfaceYaml\<close>), for any key and in any environment, leave the state as it is and
  return an error that wraps the recorded one.
\<close>

theorem duplicate_name_poisons_store:
  assumes path: "search_path env dp = ps @ qs"
    and listable: "\<forall>p \<in> set ps. listable env p"
    and scan: "scan_entries env ps = xs @ e1 # ys @ e2 # zs"
    and files: "is_file e1" "is_file e2"
    and same: "entry_key env e1 = entry_key env e2"
    and read: "entry_read env e1 = Inr d"
    and st': "st' = fst (Load env (pkg_init dp))"
  shows "\<exists>b. pkgErr st' = Some (dup_error env b) \<and> pkgVal st' = None
           \<and> snd (Load env (pkg_init dp)) = Some (load_error (dup_error env b))
           \<and> Load env' st' = (st', Some (load_error (dup_error env b)))
           \<and> Bytes env' st' n = (st', nil_bytes, Some (get_error env' n (load_error (dup_error env b))))
           \<and> String env' st' n = (st', [], Some (get_error env' n (load_error (dup_error env b))))
           \<and> Userinfo env' st' n = (st', None, Some (get_error env' n (load_error (dup_error env b))))
           \<and> Url env' st' n = (st', None, Some (get_error env' n (load_error (dup_error env b))))
           \<and> InterfaceJson env' st' n v = (st', v, Some (get_error env' n (load_error (dup_error env b))))
           \<and> InterfaceYaml env' st' n v = (st', v, Some (get_error env' n (load_error (dup_error env b))))
           \<and> wraps (get_error env' n (load_error (dup_error env b))) (dup_error env b)"
proof -
  have "read_ok env e1" using read by (simp add: read_ok_iff)
  then have "\<not> no_collision env [] (scan_entries env ps)"
    using collision_found[OF files same] scan by simp
  then obtain b where "load_entries env (scan_entries env ps) (Map.empty, []) = Inl (dup_error env b)"
    using load_entries_char[OF holds_read_empty, of env "scan_entries env ps" "[]"] by auto
  then have "load_dirs env ps (Map.empty, []) = Inl (dup_error env b)"
    using load_dirs_entries[OF listable] by simp
  then have fail: "load_dirs env (search_path env dp) (Map.empty, []) = Inl (dup_error env b)"
    by (simp add: path load_dirs_append)
  have once: "pkgOnce st'" by (simp add: st' Load_pkgOnce)
  have err: "pkgErr st' = Some (dup_error env b)" by (simp add: st' Load_init_fail(1)[OF fail])
  have val: "pkgVal st' = None" by (simp add: st' Load_init_fail(2)[OF fail])
  have again: "Load env' st' = (st', Some (load_error (dup_error env b)))"
    by (simp add: Load_done[OF once] err)
  show ?thesis
  proof (intro exI[of _ b] conjI)
    show "pkgErr st' = Some (dup_error env b)" by (rule err)
    show "pkgVal st' = None" by (rule val)
    show "snd (Load env (pkg_init dp)) = Some (load_error (dup_error env b))"
      by (rule Load_init_fail(3)[OF fail])
    show "Load env' st' = (st', Some (load_error (dup_error env b)))" by (rule again)
    show "Bytes env' st' n = (st', nil_bytes, Some (get_error env' n (load_error (dup_error env b))))"
      by (rule Bytes_failed[OF once err])
    show "String env' st' n = (st', [], Some (get_error env' n (load_error (dup_error env b))))"
      by (rule String_failed[OF once err])
    show "Userinfo env' st' n = (st', None, Some (get_error env' n (load_error (dup_error env b))))"
      by (rule Userinfo_failed[OF once err])
    show "Url env' st' n = (st', None, Some (get_error env' n (load_error (dup_error env b))))"
      by (rule Url_failed[OF once err])
    show "InterfaceJson env' st' n v = (st', v, Some (get_error env' n (load_error (dup_error env b))))"
      by (rule InterfaceJson_failed[OF once err])
    show "InterfaceYaml env' st' n v = (st', v, Some (get_error env' n (load_error (dup_error env b))))"
      by (rule InterfaceYaml_failed[OF once err])
    show "wraps (get_error env' n (load_error (dup_error env b))) (dup_error env b)"
      by (rule wraps_get_error)
  qed
qed

text \<open>The theorem at the file \<open>a\<close> found in both \<open>d1\<close> and \<open>d2\<close>.\<close>

theorem duplicate_name_poisons_store_witness:
  "search_path dup_env [] = [''d1'', ''d2''] @ []
   \<and> scan_entries dup_env [''d1'', ''d2'']
       = [] @ (''d1'', \<lparr>Name = ''a'', IsDir = False\<rparr>) # [] @ (''d2'', \<lparr>Name = ''a'', IsDir = False\<rparr>) # []
   \<and> entry_read dup_env (''d1'', \<lparr>Name = ''a'', IsDir = False\<rparr>) = Inr ''one''
   \<and> pkgVal (fst (Load dup_env (pkg_init []))) = None
   \<and> (\<exists>b. snd (Load dup_env (pkg_init [])) = Some (load_error (dup_error dup_env b))
          \<and> Bytes test_env (fst (Load dup_env (pkg_init []))) ''bytes''
              = (fst (Load dup_env (pkg_init [])), nil_bytes,
                  Some (get_error test_env ''bytes'' (load_error (dup_error dup_env b)))))"
proof -
  let ?e1 = "(''d1'', \<lparr>Name = ''a'', IsDir = False\<rparr>)"
  let ?e2 = "(''d2'', \<lparr>Name = ''a'', IsDir = False\<rparr>)"
  have path: "search_path dup_env [] = [''d1'', ''d2''] @ []"
    by (simp add: dup_env_def example_simps)
  have listable: "\<forall>p \<in> set [''d1'', ''d2'']. listable dup_env p"
    by (simp add: dup_env_def example_simps entry_simps)
  have scan: "scan_entries dup_env [''d1'', ''d2''] = [] @ ?e1 # [] @ ?e2 # []"
    by (simp add: dup_env_def example_simps entry_simps)
  have files: "is_file ?e1" "is_file ?e2" by (simp_all add: is_file_def)
  have same: "entry_key dup_env ?e1 = entry_key dup_env ?e2"
    by (simp add: dup_env_def example_simps entry_simps)
  have read: "entry_read dup_env ?e1 = Inr ''one''"
    by (simp add: dup_env_def example_simps entry_simps)
  from duplicate_name_poisons_store[OF path listable scan files same read refl,
      of test_env "''bytes''"]
  obtain b where
    val: "pkgVal (fst (Load dup_env (pkg_init []))) = None"
    and res: "snd (Load dup_env (pkg_init [])) = Some (load_error (dup_error dup_env b))"
    and byt: "Bytes test_env (fst (Load dup_env (pkg_init []))) ''bytes''
              = (fst (Load dup_env (pkg_init [])), nil_bytes,
                  Some (get_error test_env ''bytes'' (load_error (dup_error dup_env b))))"
    by blast
  from res byt have "\<exists>b. snd (Load dup_env (pkg_init [])) = Some (load_error (dup_error dup_env b))
          \<and> Bytes test_env (fst (Load dup_env (pkg_init []))) ''bytes''
              = (fst (Load dup_env (pkg_init [])), nil_bytes,
                  Some (get_error test_env ''bytes'' (load_error (dup_error dup_env b))))"
    by (intro exI[of _ b] conjI)
  with path scan read val show ?thesis by (intro conjI)
qed

text \<open>
  Claim C1 as it is written fails: \<open>d1/a\<close> and \<open>d2/a\<close> share the base name \<open>a\<close>, the
  first cannot be read, and \<open>Load\<close> succeeds with the second stored under \<open>a\<close>.
\<close>

theorem shared_name_counterexample:
  "scan_entries shadow_env (search_path shadow_env [])
     = [(''d1'', \<lparr>Name = ''a'', IsDir = False\<rparr>), (''d2'', \<lparr>Name = ''a'', IsDir = False\<rparr>)]
   \<and> entry_key shadow_env (''d1'', \<lparr>Name = ''a'', IsDir = False\<rparr>) = ''a''
   \<and> entry_key shadow_env (''d2'', \<lparr>Name = ''a'', IsDir = False\<rparr>) = ''a''
   \<and> snd (Load shadow_env (pkg_init [])) = None
   \<and> pkgErr (fst (Load shadow_env (pkg_init []))) = None
   \<and> snd (Bytes shadow_env (fst (Load shadow_env (pkg_init []))) ''a'') = (Slice ''two'', None)"
  by (simp add: shadow_env_def example_simps entry_simps run_simps)

text \<open>
  Claim C2, as amended. When the first \<open>Load\<close> has recorded an error \<open>e\<close>, that call and
  every later call, in any environment, return the same result: an error made by
  \<open>fmt.Errorf\<close> that wraps \<open>e\<close> and whose message is the message of \<open>e\<close> behind the
  prefix \<open>config: encountered while loading config: \<close>. The state does not change any
  more: the load is not tried again.
\<close>

theorem load_error_replayed:
  assumes "pkgErr (fst (Load env st)) = Some e"
  shows "snd (Load env st) = Some (load_error e)
       \<and> Load_seq envs (fst (Load env st))
           = (fst (Load env st), replicate (length envs) (Some (load_error e)))
       \<and> Unwrap (load_error e) = Some e
       \<and> Error (load_error e) = ''config: encountered while loading config: '' @ Error e"
proof (intro conjI)
  show "snd (Load env st) = Some (load_error e)"
    using Load_snd[of env st] assms by simp
  show "Load_seq envs (fst (Load env st))
           = (fst (Load env st), replicate (length envs) (Some (load_error e)))"
    using Load_seq_done[OF Load_pkgOnce, of envs env st] assms by simp
  show "Unwrap (load_error e) = Some e" by (simp add: load_error_def)
  show "Error (load_error e) = ''config: encountered while loading config: '' @ Error e"
    by (simp add: load_error_def)
qed

lemma missing_env_load:
  "pkgErr (fst (Load missing_env (pkg_init [])))
     = Some (dir_error missing_env ''missing''
               (Foreign ''open missing: no such file or directory'' None))"
  by (simp add: missing_env_def example_simps run_simps)

text \<open>The theorem at a search path that names a missing directory, for three later calls.\<close>

theorem load_error_replayed_witness:
  "pkgErr (fst (Load missing_env (pkg_init [])))
     = Some (dir_error missing_env ''missing''
               (Foreign ''open missing: no such file or directory'' None))
   \<and> Load_seq [test_env, dup_env, missing_env] (fst (Load missing_env (pkg_init [])))
     = (fst (Load missing_env (pkg_init [])),
        replicate 3 (Some (load_error (dir_error missing_env ''missing''
               (Foreign ''open missing: no such file or directory'' None)))))"
  using load_error_replayed[OF missing_env_load, of "[test_env, dup_env, missing_env]"]
    missing_env_load
  by (simp del: Load_seq.simps add: eval_nat_numeral)

text \<open>
  Claim C2 as it is written fails: for a search path that names a missing directory the
  second call of \<open>Load\<close> does not return the recorded error but a value that wraps it,
  and the two messages differ.
\<close>

theorem load_error_identity_counterexample:
  "pkgErr (fst (Load missing_env (pkg_init []))) \<noteq> None
   \<and> snd (Load missing_env (fst (Load missing_env (pkg_init []))))
       \<noteq> pkgErr (fst (Load missing_env (pkg_init [])))
   \<and> map_option Error (snd (Load missing_env (fst (Load missing_env (pkg_init [])))))
       \<noteq> map_option Error (pkgErr (fst (Load missing_env (pkg_init []))))"
proof -
  let ?e = "dir_error missing_env ''missing'' (Foreign ''open missing: no such file or directory'' None)"
  have again: "snd (Load missing_env (fst (Load missing_env (pkg_init [])))) = Some (load_error ?e)"
    using Load_again[of missing_env missing_env "pkg_init []"] Load_snd[of missing_env "pkg_init []"]
      missing_env_load by simp
  have "load_error ?e \<noteq> ?e" by (simp add: load_error_def dir_error_def)
  moreover have "Error (load_error ?e) \<noteq> Error ?e" by (simp add: load_error_def dir_error_def)
  ultimately show ?thesis using again missing_env_load by simp
qed

lemma Load_seq_Cons:
  "Load_seq (env # envs) st
     = (fst (Load env st), replicate (Suc (length envs)) (snd (Load env st)))"
  using Load_seq_done[OF Load_pkgOnce, of envs env st] Load_snd[of env st]
  by (simp add: split_beta)

text \<open>
  Claim C4. Calling \<open>Load\<close> once more or many times more, whatever the environment of
  the later calls, ends in the state the first call left (the same store and the same
  log) and gives every call the result of the first. From a fresh process the log
  holds the message that opens the scan once, followed by at most one more message.
\<close>

theorem Load_idempotent:
  "Load_seq (env # envs) st
     = (fst (Load env st), replicate (Suc (length envs)) (snd (Load env st)))
   \<and> pkgVal (fst (Load_seq (env # envs) st)) = pkgVal (fst (Load env st))
   \<and> logged (fst (Load_seq (env # envs) st)) = logged (fst (Load env st))
   \<and> (\<exists>tl. logged (fst (Load_seq (env # envs) (pkg_init dp)))
              = (''config: '' @ EnvVar @ ''='' @ Path env (pkg_init dp)) # tl \<and> length tl \<le> 1)"
  using Load_init_logged[of env dp] by (simp add: Load_seq_Cons del: Load_seq.simps)

text \<open>The theorem at a load that succeeds and at one that fails.\<close>

theorem Load_idempotent_witness:
  "snd (Load_seq [test_env, test_env, dup_env] (pkg_init [])) = [None, None, None]
   \<and> snd (Load_seq [dup_env, test_env] (pkg_init []))
       = replicate 2 (Some (load_error (dup_error dup_env ''a'')))
   \<and> logged (fst (Load_seq [dup_env, test_env] (pkg_init []))) = [''config: CONFIG_PATH=d1:d2'']"
proof -
  have a: "snd (Load test_env (pkg_init [])) = None"
    by (simp add: test_env_def testdata_def example_simps run_simps)
  have b: "snd (Load dup_env (pkg_init [])) = Some (load_error (dup_error dup_env ''a''))"
    by (simp add: dup_env_def example_simps run_simps)
  have c: "logged (fst (Load dup_env (pkg_init []))) = [''config: CONFIG_PATH=d1:d2'']"
    by (simp add: dup_env_def example_simps run_simps)
  show ?thesis
    using Load_idempotent[of test_env "[test_env, dup_env]" "pkg_init []"]
      Load_idempotent[of dup_env "[test_env]" "pkg_init []"] a b c
    by (simp del: Load_seq.simps add: eval_nat_numeral)
qed

lemma Bytes_unfold:
  "Bytes env st n =
     (case snd (Load env st) of
        Some err \<Rightarrow> (fst (Load env st), nil_bytes, Some (get_error env n err))
      | None \<Rightarrow>
          (case map_lookup (pkgVal (fst (Load env st))) n of
             Some v \<Rightarrow> (fst (Load env st), v, None)
           | None \<Rightarrow> (fst (Load env st), nil_bytes, Some ErrNotExist)))"
  by (simp add: Bytes_def split_beta)

lemma String_unfold:
  "String env st n =
     (case snd (snd (Bytes env st n)) of
        Some err \<Rightarrow> (fst (Bytes env st n), [], Some err)
      | None \<Rightarrow> (fst (Bytes env st n), string_of_bytes (fst (snd (Bytes env st n))), None))"
  by (simp add: String_def split_beta)

lemma Load_ok_again: "snd (Load env st) = None \<Longrightarrow> Load env' (fst (Load env st)) = (fst (Load env st), None)"
  using Load_again[of env' env st] by (simp add: prod_eq_iff)

text \<open>
  Claim C5. When \<open>Load\<close> succeeds and the name \<open>n\<close> is not a key of the store, \<open>Bytes\<close>
  returns the nil slice and \<open>String\<close> the empty string, both with \<open>os.ErrNotExist\<close>: in
  the call that made the load happen and in every later call.
\<close>

theorem missing_key_not_found:
  assumes "Load env st = (st', None)" and "map_lookup (pkgVal st') n = None"
  shows "Bytes env st n = (st', nil_bytes, Some ErrNotExist)
       \<and> String env st n = (st', [], Some ErrNotExist)
       \<and> Bytes env' st' n = (st', nil_bytes, Some ErrNotExist)
       \<and> String env' st' n = (st', [], Some ErrNotExist)"
proof -
  from assms(1) have st': "fst (Load env st) = st'" and ok: "snd (Load env st) = None"
    by simp_all
  have again: "Load env' st' = (st', None)"
    using Load_ok_again[OF ok, of env'] st' by simp
  have b1: "Bytes env st n = (st', nil_bytes, Some ErrNotExist)"
    by (simp add: Bytes_unfold st' ok assms(2))
  have b2: "Bytes env' st' n = (st', nil_bytes, Some ErrNotExist)"
    by (simp add: Bytes_unfold again assms(2))
  show ?thesis
    by (simp add: b1 b2 String_unfold)
qed

text \<open>The theorem at the fixture of the tests and a name that no file has.\<close>

theorem missing_key_not_found_witness:
  "snd (Load test_env (pkg_init [])) = None
   \<and> map_lookup (pkgVal (fst (Load test_env (pkg_init [])))) ''absent'' = None
   \<and> snd (Bytes test_env (pkg_init []) ''absent'') = (nil_bytes, Some ErrNotExist)
   \<and> snd (String test_env (fst (Load test_env (pkg_init []))) ''absent'') = ([], Some ErrNotExist)"
proof -
  have ok: "snd (Load test_env (pkg_init [])) = None"
    by (simp add: test_env_def testdata_def example_simps run_simps)
  have a: "Load test_env (pkg_init []) = (fst (Load test_env (pkg_init [])), None)"
    by (simp add: prod_eq_iff ok)
  have b: "map_lookup (pkgVal (fst (Load test_env (pkg_init [])))) ''absent'' = None"
    by (simp add: test_env_def testdata_def example_simps run_simps)
  note t = missing_key_not_found[OF a b, of test_env]
  from t have "Bytes test_env (pkg_init []) ''absent''
      = (fst (Load test_env (pkg_init [])), nil_bytes, Some ErrNotExist)"
    by (rule conjunct1)
  moreover have "String test_env (fst (Load test_env (pkg_init []))) ''absent''
      = (fst (Load test_env (pkg_init [])), [], Some ErrNotExist)"
    by (rule t[THEN conjunct2, THEN conjunct2, THEN conjunct2])
  ultimately show ?thesis using ok b by (simp only: snd_conv simp_thms)
qed

text \<open>
  Claim C10. When the search path splits into no directory at all, \<open>Load\<close> succeeds and
  publishes the empty map, and \<open>Bytes\<close> returns \<open>os.ErrNotExist\<close> for every name.
\<close>

theorem empty_search_path:
  assumes "search_path env dp = []" and "st' = fst (Load env (pkg_init dp))"
  shows "snd (Load env (pkg_init dp)) = None \<and> pkgErr st' = None \<and> pkgVal st' = Some Map.empty
       \<and> Bytes env (pkg_init dp) n = (st', nil_bytes, Some ErrNotExist)
       \<and> Bytes env' st' n = (st', nil_bytes, Some ErrNotExist)"
proof -
  have "load_dirs env (search_path env dp) (Map.empty, []) = Inr (Map.empty, [])"
    using assms(1) by simp
  note ok = Load_init_ok[OF this]
  have look: "map_lookup (pkgVal (fst (Load env (pkg_init dp)))) n = None"
    using ok(2) by (simp add: map_lookup_def)
  have b1: "Bytes env (pkg_init dp) n = (fst (Load env (pkg_init dp)), nil_bytes, Some ErrNotExist)"
    by (simp add: Bytes_unfold ok(3) look)
  have b2: "Bytes env' (fst (Load env (pkg_init dp))) n
      = (fst (Load env (pkg_init dp)), nil_bytes, Some ErrNotExist)"
    by (simp add: Bytes_unfold Load_ok_again[OF ok(3)] look)
  show ?thesis
    unfolding assms(2) using ok b1 b2 by simp
qed

text \<open>
  The theorem where \<open>CONFIG_PATH\<close> is not set and \<open>DefaultPath\<close> is the empty string.
\<close>

theorem empty_search_path_witness:
  "search_path unset_env [] = []
   \<and> snd (Load unset_env (pkg_init [])) = None
   \<and> snd (Bytes unset_env (pkg_init []) ''bytes'') = (nil_bytes, Some ErrNotExist)"
proof -
  have a: "search_path unset_env [] = []"
    by (simp add: unset_env_def example_simps)
  note t = empty_search_path[OF a refl, of "''bytes''" unset_env]
  from t have "snd (Load unset_env (pkg_init [])) = None" by (rule conjunct1)
  moreover have "Bytes unset_env (pkg_init []) ''bytes''
      = (fst (Load unset_env (pkg_init [])), nil_bytes, Some ErrNotExist)"
    by (rule t[THEN conjunct2, THEN conjunct2, THEN conjunct2, THEN conjunct1])
  ultimately show ?thesis using a by (simp only: snd_conv simp_thms)
qed

lemma Bytes_stored:
  assumes "Load env st = (st', None)" and "map_lookup (pkgVal st') n = Some b"
  shows "Bytes env st n = (st', b, None)" and "Bytes env' st' n = (st', b, None)"
proof -
  from assms(1) have st': "fst (Load env st) = st'" and ok: "snd (Load env st) = None"
    by simp_all
  have again: "Load env' st' = (st', None)"
    using Load_ok_again[OF ok, of env'] st' by simp
  show "Bytes env st n = (st', b, None)"
    by (simp add: Bytes_unfold st' ok assms(2))
  show "Bytes env' st' n = (st', b, None)"
    by (simp add: Bytes_unfold again assms(2))
qed







lemma Load_ok_iff:
  "(snd (Load env (pkg_init dp)) = None) =
     ((\<forall>p \<in> set (search_path env dp). listable env p)
      \<and> no_collision env [] (scan_entries env (search_path env dp)))"
proof
  assume ok: "snd (Load env (pkg_init dp)) = None"
  show "(\<forall>p \<in> set (search_path env dp). listable env p)
      \<and> no_collision env [] (scan_entries env (search_path env dp))"
  proof (cases "load_dirs env (search_path env dp) (Map.empty, [])")
    case (Inl e)
    from Load_init_fail(3)[OF this] ok show ?thesis by simp
  next
    case (Inr r)
    then have l: "\<forall>p \<in> set (search_path env dp). listable env p"
      using load_dirs_listable by blast
    from Load_listable[OF l] ok have "no_collision env [] (scan_entries env (search_path env dp))"
      by (auto split: if_splits)
    with l show ?thesis by simp
  qed
next
  assume "(\<forall>p \<in> set (search_path env dp). listable env p)
      \<and> no_collision env [] (scan_entries env (search_path env dp))"
  then show "snd (Load env (pkg_init dp)) = None"
    using Load_listable[of env dp] by auto
qed

lemma Load_recorded:
  assumes "pkgErr (fst (Load env (pkg_init dp))) = Some e"
  shows "load_dirs env (search_path env dp) (Map.empty, []) = Inl e"
proof (cases "load_dirs env (search_path env dp) (Map.empty, [])")
  case (Inl e')
  from Load_init_fail(1)[OF this] assms Inl show ?thesis by simp
next
  case (Inr r)
  obtain m fs where "r = (m, fs)" by (cases r)
  with Inr Load_init_ok(1)[of env dp m fs] assms show ?thesis by simp
qed

lemma load_file_skip:
  assumes "\<not> IsDir fi" and "map_index (fst a) (Base env (Join env p (Name fi))) = nil_bytes"
    and "ReadFile env (Join env p (Name fi)) = Inl err"
  shows "load_file env p fi a = Inr a"
  using assms by (simp add: load_file_def)

text \<open>
  Claim C6. An entry that is not a directory, whose base name is not yet in the map and
  whose content cannot be read leaves the map and the list of files as they were, and
  the loop goes on with the next entry. An error that \<open>Load\<close> records is the error of a
  directory on the search path that could not be listed, or a duplicate-name error;
  \<open>Load\<close> succeeds exactly when every directory can be listed and no entry collides
  with an entry read before it, however many files could not be read.
\<close>

theorem unreadable_file_skipped:
  "(\<not> IsDir fi \<and> map_index (fst a) (Base env (Join env p (Name fi))) = nil_bytes
      \<and> (\<exists>err. ReadFile env (Join env p (Name fi)) = Inl err)
      \<longrightarrow> load_file env p fi a = Inr a
          \<and> load_files env p (fi # fis) a = load_files env p fis a)
   \<and> (\<forall>e. pkgErr (fst (Load env (pkg_init dp))) = Some e \<longrightarrow>
          (\<exists>q err. q \<in> set (search_path env dp) \<and> ReadDir env q = Inl err \<and> e = dir_error env q err)
          \<or> (\<exists>b. e = dup_error env b))
   \<and> (snd (Load env (pkg_init dp)) = None) =
       ((\<forall>q \<in> set (search_path env dp). listable env q)
        \<and> no_collision env [] (scan_entries env (search_path env dp)))"
proof (intro conjI impI allI)
  assume h: "\<not> IsDir fi \<and> map_index (fst a) (Base env (Join env p (Name fi))) = nil_bytes
      \<and> (\<exists>err. ReadFile env (Join env p (Name fi)) = Inl err)"
  then obtain err where "ReadFile env (Join env p (Name fi)) = Inl err" by blast
  with h show skip: "load_file env p fi a = Inr a" by (simp add: load_file_skip)
  then show "load_files env p (fi # fis) a = load_files env p fis a" by simp
next
  fix e
  assume "pkgErr (fst (Load env (pkg_init dp))) = Some e"
  from load_dirs_error[OF Load_recorded[OF this]]
  show "(\<exists>q err. q \<in> set (search_path env dp) \<and> ReadDir env q = Inl err \<and> e = dir_error env q err)
          \<or> (\<exists>b. e = dup_error env b)" .
next
  show "(snd (Load env (pkg_init dp)) = None) =
       ((\<forall>q \<in> set (search_path env dp). listable env q)
        \<and> no_collision env [] (scan_entries env (search_path env dp)))"
    by (rule Load_ok_iff)
qed

lemma locked_env_scan:
  "search_path locked_env [] = [''d'']"
  "ReadDir locked_env ''d'' = Inr [\<lparr>Name = ''a'', IsDir = False\<rparr>, \<lparr>Name = ''b'', IsDir = False\<rparr>,
       \<lparr>Name = ''sub'', IsDir = True\<rparr>]"
  "Base locked_env (Join locked_env ''d'' ''a'') = ''a''"
  "Base locked_env (Join locked_env ''d'' ''b'') = ''b''"
  "ReadFile locked_env (Join locked_env ''d'' ''a'') = Inl (Foreign ''open d/a: permission denied'' None)"
  "ReadFile locked_env (Join locked_env ''d'' ''b'') = Inr ''bee''"
  by (simp_all add: locked_env_def example_simps)

lemma locked_env_ok: "snd (Load locked_env (pkg_init [])) = None"
  by (simp add: locked_env_def example_simps run_simps)

text \<open>
  The theorem at a directory holding an unreadable file, a readable file and a
  subdirectory, and at a search path that names a missing directory.
\<close>

theorem unreadable_file_skipped_witness:
  "ReadFile locked_env (Join locked_env ''d'' ''a'') = Inl (Foreign ''open d/a: permission denied'' None)
   \<and> load_file locked_env ''d'' \<lparr>Name = ''a'', IsDir = False\<rparr> (Map.empty, []) = Inr (Map.empty, [])
   \<and> snd (Load locked_env (pkg_init [])) = None
   \<and> no_collision locked_env [] (scan_entries locked_env (search_path locked_env []))
   \<and> (\<exists>q err. q \<in> set (search_path missing_env []) \<and> ReadDir missing_env q = Inl err
         \<and> pkgErr (fst (Load missing_env (pkg_init []))) = Some (dir_error missing_env q err))"
proof -
  let ?a = "\<lparr>Name = ''a'', IsDir = False\<rparr>"
  note t = unreadable_file_skipped[of ?a "(Map.empty, [])" locked_env "''d''" "[]" "[]"]
  have pre: "\<not> IsDir ?a \<and> map_index (fst (Map.empty, [])) (Base locked_env (Join locked_env ''d'' (Name ?a))) = nil_bytes
      \<and> (\<exists>err. ReadFile locked_env (Join locked_env ''d'' (Name ?a)) = Inl err)"
    by (simp add: locked_env_scan map_index_def)
  from t pre have c1: "load_file locked_env ''d'' ?a (Map.empty, []) = Inr (Map.empty, [])"
    by blast
  from t locked_env_ok
  have c2: "no_collision locked_env [] (scan_entries locked_env (search_path locked_env []))"
    by blast
  note u = unreadable_file_skipped[of ?a "(Map.empty, [])" missing_env "''d''" "[]" "[]",
      THEN conjunct2, THEN conjunct1, rule_format, OF missing_env_load]
  have "\<And>b. dir_error missing_env ''missing'' (Foreign ''open missing: no such file or directory'' None)
      \<noteq> dup_error missing_env b"
    by (simp add: dir_error_def dup_error_def)
  with u missing_env_load
  have c3: "\<exists>q err. q \<in> set (search_path missing_env []) \<and> ReadDir missing_env q = Inl err
         \<and> pkgErr (fst (Load missing_env (pkg_init []))) = Some (dir_error missing_env q err)"
    by auto
  show ?thesis
    using locked_env_scan(5) c1 locked_env_ok c2 c3 by (intro conjI)
qed

text \<open>
  Claim C7, as amended. After a successful load, for every directory on the search path,
  the content of every direct entry that is not a directory and whose content could be
  read is what \<open>Bytes\<close> returns for its base file name; and every key of the store is the
  base name of such an entry, with its content as the value: no subdirectory and no
  file that could not be read brings a key into the store.
\<close>

theorem readable_files_retrievable:
  assumes "Load env (pkg_init dp) = (st', None)"
  shows "(\<forall>p fis fi d. p \<in> set (search_path env dp) \<and> ReadDir env p = Inr fis \<and> fi \<in> set fis
            \<and> \<not> IsDir fi \<and> ReadFile env (Join env p (Name fi)) = Inr d
          \<longrightarrow> Bytes env' st' (Base env (Join env p (Name fi))) = (st', Slice d, None))
       \<and> (\<forall>k v. map_lookup (pkgVal st') k = Some v \<longrightarrow>
            (\<exists>p \<in> set (search_path env dp). \<exists>fis. ReadDir env p = Inr fis
               \<and> (\<exists>fi \<in> set fis. \<not> IsDir fi \<and> Base env (Join env p (Name fi)) = k
                     \<and> (\<exists>d. ReadFile env (Join env p (Name fi)) = Inr d \<and> v = Slice d))))"
proof -
  from assms have st': "fst (Load env (pkg_init dp)) = st'" and ok: "snd (Load env (pkg_init dp)) = None"
    by simp_all
  from Load_ok_scan[OF ok] st' obtain m where val: "pkgVal st' = Some m"
    and h: "holds_read env (scan_entries env (search_path env dp)) m"
    by auto
  show ?thesis
  proof (intro conjI allI impI)
    fix p fis fi d
    assume a: "p \<in> set (search_path env dp) \<and> ReadDir env p = Inr fis \<and> fi \<in> set fis
            \<and> \<not> IsDir fi \<and> ReadFile env (Join env p (Name fi)) = Inr d"
    then have "(p, fi) \<in> set (scan_entries env (search_path env dp))"
      by (auto simp: scan_entries_mem)
    moreover have "is_file (p, fi)" "entry_read env (p, fi) = Inr d"
      using a by (simp_all add: is_file_def entry_read_def entry_path_def)
    ultimately have "m (entry_key env (p, fi)) = Some (Slice d)"
      using holds_read_mem[OF h] by blast
    then have "map_lookup (pkgVal st') (Base env (Join env p (Name fi))) = Some (Slice d)"
      by (simp add: val map_lookup_def entry_key_def entry_path_def)
    from Bytes_stored(2)[OF assms this]
    show "Bytes env' st' (Base env (Join env p (Name fi))) = (st', Slice d, None)" .
  next
    fix k v
    assume "map_lookup (pkgVal st') k = Some v"
    then have "m k = Some v" by (simp add: val map_lookup_def)
    from holds_read_Some[OF h this] obtain x d where x: "x \<in> set (scan_entries env (search_path env dp))"
      "is_file x" "entry_key env x = k" "entry_read env x = Inr d" "v = Slice d"
      by blast
    from x(1) obtain p fis fi where "p \<in> set (search_path env dp)" "ReadDir env p = Inr fis"
      "fi \<in> set fis" "x = (p, fi)"
      by (auto simp: scan_entries_mem)
    with x(2-5) show "\<exists>p \<in> set (search_path env dp). \<exists>fis. ReadDir env p = Inr fis
               \<and> (\<exists>fi \<in> set fis. \<not> IsDir fi \<and> Base env (Join env p (Name fi)) = k
                     \<and> (\<exists>d. ReadFile env (Join env p (Name fi)) = Inr d \<and> v = Slice d))"
      by (auto simp: is_file_def entry_key_def entry_read_def entry_path_def)
  qed
qed

text \<open>
  The theorem at the directory \<open>d\<close>: its readable file \<open>b\<close> is returned by \<open>Bytes\<close>, and
  the key \<open>b\<close> of the store comes from a file.
\<close>

theorem readable_files_retrievable_witness:
  "snd (Load locked_env (pkg_init [])) = None
   \<and> ReadFile locked_env (Join locked_env ''d'' ''b'') = Inr ''bee''
   \<and> snd (Bytes locked_env (fst (Load locked_env (pkg_init []))) ''b'') = (Slice ''bee'', None)
   \<and> map_lookup (pkgVal (fst (Load locked_env (pkg_init [])))) ''sub'' = None"
proof -
  let ?st = "fst (Load locked_env (pkg_init []))"
  have ld: "Load locked_env (pkg_init []) = (?st, None)"
    by (simp add: prod_eq_iff locked_env_ok)
  note t = readable_files_retrievable[OF ld, of locked_env, THEN conjunct1, rule_format,
      of "''d''" "[\<lparr>Name = ''a'', IsDir = False\<rparr>, \<lparr>Name = ''b'', IsDir = False\<rparr>,
         \<lparr>Name = ''sub'', IsDir = True\<rparr>]" "\<lparr>Name = ''b'', IsDir = False\<rparr>" "''bee''"]
  have "Bytes locked_env ?st (Base locked_env (Join locked_env ''d'' (Name \<lparr>Name = ''b'', IsDir = False\<rparr>)))
      = (?st, Slice ''bee'', None)"
    by (rule t) (simp add: locked_env_scan)
  then have b: "Bytes locked_env ?st ''b'' = (?st, Slice ''bee'', None)"
    by (simp add: locked_env_scan)
  have s: "map_lookup (pkgVal ?st) ''sub'' = None"
    by (simp add: locked_env_def example_simps run_simps)
  show ?thesis
    using locked_env_ok locked_env_scan(6) s by (simp only: b snd_conv simp_thms)
qed

text \<open>
  Claim C7 as it is written fails for a file that cannot be read: \<open>a\<close> is a direct entry
  of the directory \<open>d\<close> on the search path and not a directory, the load succeeds, and
  \<open>Bytes\<close> of its base name returns \<open>os.ErrNotExist\<close>.
\<close>

theorem unreadable_entry_counterexample:
  "search_path locked_env [] = [''d'']
   \<and> ReadDir locked_env ''d'' = Inr [\<lparr>Name = ''a'', IsDir = False\<rparr>, \<lparr>Name = ''b'', IsDir = False\<rparr>,
         \<lparr>Name = ''sub'', IsDir = True\<rparr>]
   \<and> Base locked_env (Join locked_env ''d'' ''a'') = ''a''
   \<and> snd (Load locked_env (pkg_init [])) = None
   \<and> snd (Bytes locked_env (fst (Load locked_env (pkg_init []))) ''a'')
       = (nil_bytes, Some ErrNotExist)"
proof -
  have "snd (Bytes locked_env (fst (Load locked_env (pkg_init []))) ''a'')
       = (nil_bytes, Some ErrNotExist)"
    by (simp add: locked_env_def example_simps run_simps)
  then show ?thesis
    using locked_env_scan(1,2,3) locked_env_ok by (intro conjI)
qed






end
